theory Spec2Isabelle
  imports Complex_Main "HOL-Library.Sublist" "HOL-Library.AList"
begin

chapter \<open>Definitions: the program\<close>

section \<open>Strings, paths and decimal numbers\<close>

text \<open>
  Python's \<^verbatim>\<open>str(n)\<close> (and the \<^verbatim>\<open>{n}\<close> of an f-string) for a natural number,
  \<^verbatim>\<open>" ".join(xs)\<close>, and the POSIX versions of \<^verbatim>\<open>os.path.basename\<close>,
  \<^verbatim>\<open>os.path.splitext\<close> and \<^verbatim>\<open>os.path.join\<close> (two components).
\<close>

definition digit_char :: "nat \<Rightarrow> char" where
  "digit_char d = ''0123456789'' ! d"

fun str_nat :: "nat \<Rightarrow> string" where
  "str_nat n = (if n < 10 then [digit_char n] else str_nat (n div 10) @ [digit_char (n mod 10)])"

declare str_nat.simps [simp del]


definition basename :: "string \<Rightarrow> string" where
  "basename p = rev (takeWhile (\<lambda>c. c \<noteq> CHR ''/'') (rev p))"

definition splitext :: "string \<Rightarrow> string \<times> string" where
  "splitext p =
     (let name = basename p;
          dir = take (length p - length name) p;
          ext_rev = takeWhile (\<lambda>c. c \<noteq> CHR ''.'') (rev name)
      in case dropWhile (\<lambda>c. c \<noteq> CHR ''.'') (rev name) of
           [] \<Rightarrow> (p, [])
         | dot # stem_rev \<Rightarrow>
             if list_ex (\<lambda>c. c \<noteq> CHR ''.'') stem_rev
             then (dir @ rev stem_rev, dot # rev ext_rev)
             else (p, []))"

definition path_join :: "string \<Rightarrow> string \<Rightarrow> string" where
  "path_join a b =
     (case b of
        [] \<Rightarrow> (if a = [] \<or> last a = CHR ''/'' then a else a @ ''/'')
      | c # _ \<Rightarrow>
          if c = CHR ''/'' then b
          else if a = [] \<or> last a = CHR ''/'' then a @ b
          else a @ ''/'' @ b)"

section \<open>Vibration severity classification\<close>

text \<open>
  \<^verbatim>\<open>TestResultsSection.get_vibration_classification(rpm, vibration_value)\<close>.
  Python floats are modelled as real numbers. \<^verbatim>\<open>math.pow(x, 0.5)\<close> raises
  \<^verbatim>\<open>ValueError\<close> for a negative finite base, and the surrounding
  \<^verbatim>\<open>try/except (ValueError, ZeroDivisionError)\<close> turns that into the
  answer ("Unable to classify", False); for a non-negative base it is the square root.
\<close>

datatype py_error = ValueError | OSError

definition math_pow_half :: "real \<Rightarrow> py_error + real" where
  "math_pow_half x = (if x < 0 then Inl ValueError else Inr (sqrt x))"

definition get_vibration_classification :: "real option \<Rightarrow> real option \<Rightarrow> string \<times> bool" where
  "get_vibration_classification rpm vibration_value =
     (case (rpm, vibration_value) of
        (Some r, Some v) \<Rightarrow>
          (case math_pow_half (r / 1000) of
             Inl _ \<Rightarrow> (''Unable to classify'', False)
           | Inr rpm_factor \<Rightarrow>
               (let extremely_smooth_threshold = 0.28 * rpm_factor;
                    very_smooth_threshold = 0.45 * rpm_factor;
                    smooth_threshold = 0.71 * rpm_factor;
                    good_threshold = 1.12 * rpm_factor;
                    fair_threshold = 1.8 * rpm_factor;
                    slightly_rough_threshold = 2.8 * rpm_factor;
                    rough_threshold = 4.5 * rpm_factor;
                    very_rough_threshold = 7.1 * rpm_factor
                in if v \<le> extremely_smooth_threshold then (''Extremely Smooth'', True)
                   else if v \<le> very_smooth_threshold then (''Very Smooth'', True)
                   else if v \<le> smooth_threshold then (''Smooth'', True)
                   else if v \<le> good_threshold then (''Good'', True)
                   else if v \<le> fair_threshold then (''Fair'', False)
                   else if v \<le> slightly_rough_threshold then (''Slightly Rough'', False)
                   else if v \<le> rough_threshold then (''Rough'', False)
                   else if v \<le> very_rough_threshold then (''Very Rough'', False)
                   else (''Extremely Rough'', False)))
      | _ \<Rightarrow> (''Unable to classify'', False))"





section \<open>Numeric extraction from free text\<close>

text \<open>
  \<^verbatim>\<open>TestResultsSection.extract_numeric_value(text)\<close> calls
  \<^verbatim>\<open>re.search(r'[-+]?\d*\.?\d+', text.strip())\<close> and converts the match with
  \<^verbatim>\<open>float\<close>. The pattern is a sequence of character classes, each with a greedy
  quantifier, so the regular-expression engine is modelled for exactly that shape:
  \<open>re_match\<close> is the backtracking matcher at one start position (it tries the
  longer alternative first and falls back, as Python's engine does) and returns the
  matched text; \<open>re_search\<close> tries the start positions from left to right.
  Strings are lists of 8-bit characters; \<^verbatim>\<open>\d\<close> is the ASCII digits.
\<close>

datatype quant = Opt | Star | Plus

type_synonym pattern = "(string \<times> quant) list"








text \<open>
  \<^verbatim>\<open>float(s)\<close> on a decimal literal: an optional sign, digits, and optionally a
  point and more digits, with at least one digit. Other strings are answered with
  \<^verbatim>\<open>ValueError\<close>; of the further forms that Python accepts (exponents, "inf",
  "nan", underscores, surrounding blanks) none can be produced by the pattern. The value
  is the exact decimal number, where Python rounds it to the nearest double.
\<close>

definition digit_value :: "char \<Rightarrow> nat" where
  "digit_value c = of_char c - 48"

definition decimal_value :: "string \<Rightarrow> nat" where
  "decimal_value s = foldl (\<lambda>n c. 10 * n + digit_value c) 0 s"









subsection \<open>Temperature test data and its sentence\<close>






section \<open>Component sections\<close>

text \<open>
  The state of a \<^verbatim>\<open>ComponentSection\<close> that its getters, its status handler, the
  save and load code and the report read: the title, the catalog
  (\<^verbatim>\<open>wear_patterns\<close>), the pattern check boxes in catalog order, the visibility of
  each pattern's container, the observation check boxes of each pattern (text and
  state), the image widgets of each pattern (one widget, or for the motor and valve
  sections a dict from observation text, or \<^verbatim>\<open>'__pattern_level__'\<close>, to a widget;
  a widget is its list \<^verbatim>\<open>image_paths\<close>), the custom entries, the notes and the
  general images. Python dicts are association lists in insertion order.
\<close>

record pattern_def =
  observations :: "string list"
  sub_observations :: "(string \<times> string list) list option"

datatype image_widgets = Widget "string list" | WidgetDict "(string \<times> string list) list"

datatype custom_data =
    InlineIssue string "string list option"
  | NamedPattern string "string list" "string list"

record component_section =
  title :: string
  wear_patterns :: "(string \<times> pattern_def) list"
  checkboxes :: "(string \<times> bool) list"
  observation_containers :: "(string \<times> bool) list"
  observation_checkboxes :: "(string \<times> (string \<times> bool) list) list"
  pattern_image_widgets :: "(string \<times> image_widgets) list"
  custom_patterns :: "custom_data list"
  notes_text :: string
  image_widget :: "string list"






text \<open>
  \<^verbatim>\<open>get_selected_observations\<close>: a pattern with exactly one observation and no
  sub-observations (a terminal status pattern) yields that sentence; otherwise the texts
  of the checked observation boxes.
\<close>

definition is_status_ok :: "pattern_def \<Rightarrow> bool" where
  "is_status_ok pattern_data =
     (length (observations pattern_data) = 1 \<and> sub_observations pattern_data = None)"







text \<open>
  The lists of section titles that the source tests with \<^verbatim>\<open>title in [...]\<close>: the
  six titles with per-observation images (\<^verbatim>\<open>is_special_section\<close>), the three of
  them that belong to a motor, and the two bearing sections.
\<close>

definition special_titles :: "string list" where
  "special_titles =
     [''Motor Housing'', ''Motor Shaft'', ''Electrical Connection'', ''External Inspection'',
      ''Internal Cylinder Inspection A'', ''Internal Cylinder Inspection B'']"



section \<open>Catalogs\<close>

text \<open>
  Two of the source's catalogs, \<^verbatim>\<open>HOUSING_WEAR_PATTERNS\<close> and
  \<^verbatim>\<open>BEARING_WEAR_PATTERNS\<close>, as they are used by the sections "Motor Housing" and
  "Drive End Bearing" of a motor.
\<close>

definition housing_wear_patterns :: "(string \<times> pattern_def) list" where
  "housing_wear_patterns =
     [(''Status: OK'',
       \<lparr>observations =
           [''Motor housing inspected and found to be acceptable with no significant wear observed.''],
        sub_observations = None\<rparr>),
      (''Status: NOT OK'',
       \<lparr>observations =
           [],
        sub_observations = Some
           [([],
             [''Scratches visible on bore surfaces.'',
              ''Grooves present on mounting surfaces.'',
              ''Material removal evident in bearing seat.'',
              ''Out-of-round condition observed.'',
              ''Scoring marks visible on bore.'',
              ''Loss of surface finish noted.'',
              ''Wear marks at mounting interfaces.'',
              ''Corrosion and rust deposits evident on housing surfaces.'',
              ''Moisture staining evident in housing cavity.'',
              ''Seal groove damage observed.'',
              ''Distortion of groove geometry noted.'',
              ''Thread damage present on fastener holes.'',
              ''Stripped or cross-threaded holes observed.'',
              ''Cracks visible in housing structure.'',
              ''Material separation noted at critical locations.'',
              ''Mounting surface wear present.'',
              ''Elongated bolt holes visible.'',
              ''Deformation at mounting flange noted.'',
              ''Foreign particles and debris visible in housing.'',
              ''Contaminated lubricant present.''])]\<rparr>)]"


section \<open>Building a section, and the status check boxes\<close>

text \<open>
  \<^verbatim>\<open>ComponentSection.init_ui\<close>, as far as it builds the state above: for every
  pattern of the catalog an unchecked box, its observation boxes, its image widgets and a
  hidden container. A dict assignment \<^verbatim>\<open>d[k] = v\<close> is \<open>AList.update k v d\<close>
  (in place for a present key, at the end for a new one).
\<close>

definition status_titles :: "string list" where
  "status_titles =
     [''Motor Housing'', ''Motor Shaft'', ''Electrical Connection'', ''Oil Evaluation'',
      ''Scroll Plate Inspection'', ''Visual Inspection'', ''External Inspection'',
      ''Internal Cylinder Inspection A'', ''Internal Cylinder Inspection B'']"

definition observation_boxes :: "pattern_def \<Rightarrow> (string \<times> bool) list" where
  "observation_boxes pattern_data =
     concat (map (\<lambda>observation.
        if observation = [] then []
        else (observation, False) #
          (case sub_observations pattern_data of
             None \<Rightarrow> []
           | Some subs \<Rightarrow>
               (case map_of subs observation of
                  None \<Rightarrow> []
                | Some sub_obs \<Rightarrow> map (\<lambda>sub. (sub, False)) sub_obs)))
        (observations pattern_data))"

definition add_observation_widget :: "string \<Rightarrow> string \<Rightarrow> (string \<times> image_widgets) list \<Rightarrow> (string \<times> image_widgets) list" where
  "add_observation_widget pattern_name key widgets =
     (case map_of widgets pattern_name of
        Some (WidgetDict d) \<Rightarrow> AList.update pattern_name (WidgetDict (AList.update key [] d)) widgets
      | _ \<Rightarrow> widgets)"

definition init_pattern :: "component_section \<Rightarrow> string \<times> pattern_def \<Rightarrow> component_section" where
  "init_pattern s entry =
     (let pattern_name = fst entry;
          pattern_data = snd entry;
          is_special_section = title s \<in> set special_titles;
          direct_sub_obs =
            (case sub_observations pattern_data of None \<Rightarrow> None | Some subs \<Rightarrow> map_of subs []);
          boxes =
            (if is_status_ok pattern_data then observation_checkboxes s
             else (case direct_sub_obs of
                     Some sub_obs \<Rightarrow>
                       AList.update pattern_name (map (\<lambda>sub. (sub, False)) sub_obs)
                         (observation_checkboxes s)
                   | None \<Rightarrow>
                       AList.update pattern_name (observation_boxes pattern_data)
                         (observation_checkboxes s)));
          w0 = pattern_image_widgets s;
          w1 =
            (if is_status_ok pattern_data then w0
             else (case direct_sub_obs of
                     None \<Rightarrow> w0
                   | Some sub_obs \<Rightarrow>
                       (let w2 = (if is_special_section \<and> map_of w0 pattern_name = None
                                  then AList.update pattern_name (WidgetDict []) w0 else w0);
                            w3 = (if is_special_section
                                  then foldl (\<lambda>w sub. add_observation_widget pattern_name sub w) w2 sub_obs
                                  else w2)
                        in if title s \<in> set status_titles \<and> pattern_name = ''Status: NOT OK'' then
                             (case map_of w3 pattern_name of
                                Some (WidgetDict d) \<Rightarrow>
                                  if is_special_section
                                  then add_observation_widget pattern_name ''__pattern_level__'' w3
                                  else AList.update pattern_name (Widget []) w3
                              | _ \<Rightarrow> AList.update pattern_name (Widget []) w3)
                           else if map_of w3 pattern_name = None
                           then AList.update pattern_name (Widget []) w3
                           else w3)));
          w4 =
            (if \<not> is_status_ok pattern_data
             then (if map_of w1 pattern_name = None then AList.update pattern_name (Widget []) w1 else w1)
             else AList.update pattern_name (Widget []) w1)
      in s\<lparr>checkboxes := AList.update pattern_name False (checkboxes s),
           observation_checkboxes := boxes,
           pattern_image_widgets := w4,
           observation_containers := AList.update pattern_name False (observation_containers s)\<rparr>)"

definition init_section :: "string \<Rightarrow> (string \<times> pattern_def) list \<Rightarrow> component_section" where
  "init_section section_title wear_patterns_dict =
     foldl init_pattern
       \<lparr>title = section_title, wear_patterns = wear_patterns_dict, checkboxes = [],
        observation_containers = [], observation_checkboxes = [], pattern_image_widgets = [],
        custom_patterns = [], notes_text = [], image_widget = []\<rparr>
       wear_patterns_dict"

text \<open>
  \<^verbatim>\<open>QCheckBox.setChecked\<close> with the slot that \<^verbatim>\<open>init_ui\<close> connected to
  \<^verbatim>\<open>stateChanged\<close>: the signal is emitted only when the state changes, with 2 for
  checked and 0 for unchecked, and the slot runs at once. In the nine status-bearing
  titles the two status boxes are connected to \<^verbatim>\<open>toggle_status_checkbox\<close>, every
  other box to \<^verbatim>\<open>toggle_pattern_section\<close>.
\<close>

definition set_container_visible :: "component_section \<Rightarrow> string \<Rightarrow> bool \<Rightarrow> component_section" where
  "set_container_visible s pattern_name visible =
     (if map_of (observation_containers s) pattern_name \<noteq> None
      then s\<lparr>observation_containers := AList.update pattern_name visible (observation_containers s)\<rparr>
      else s)"

definition toggle_pattern_section :: "component_section \<Rightarrow> string \<Rightarrow> nat \<Rightarrow> component_section" where
  "toggle_pattern_section s pattern_name state = set_container_visible s pattern_name (state = 2)"

function set_checked :: "component_section \<Rightarrow> string \<Rightarrow> bool \<Rightarrow> component_section"
  and toggle_status_checkbox :: "component_section \<Rightarrow> string \<Rightarrow> nat \<Rightarrow> component_section"
where
  "set_checked s pattern_name checked =
     (case map_of (checkboxes s) pattern_name of
        None \<Rightarrow> s
      | Some current \<Rightarrow>
          if current = checked then s
          else if title s \<in> set status_titles
                  \<and> (pattern_name = ''Status: OK'' \<or> pattern_name = ''Status: NOT OK'')
          then toggle_status_checkbox
                 (s\<lparr>checkboxes := AList.update pattern_name checked (checkboxes s)\<rparr>)
                 pattern_name (if checked then 2 else 0)
          else toggle_pattern_section
                 (s\<lparr>checkboxes := AList.update pattern_name checked (checkboxes s)\<rparr>)
                 pattern_name (if checked then 2 else 0))"
| "toggle_status_checkbox s pattern_name state =
     (if state = 2 then
        (if pattern_name = ''Status: OK'' \<and> map_of (checkboxes s) ''Status: NOT OK'' \<noteq> None
         then set_checked (set_container_visible s pattern_name (state = 2)) ''Status: NOT OK'' False
         else if pattern_name = ''Status: NOT OK'' \<and> map_of (checkboxes s) ''Status: OK'' \<noteq> None
         then set_checked (set_container_visible s pattern_name (state = 2)) ''Status: OK'' False
         else set_container_visible s pattern_name (state = 2))
      else set_container_visible s pattern_name (state = 2))"
  by pat_completeness auto
termination
  by (relation "measure (\<lambda>x. case x of
         Inl (s, pattern_name, checked) \<Rightarrow> if checked then 3 else 1
       | Inr (s, pattern_name, state) \<Rightarrow> if state = 2 then 2 else (0::nat))") auto

text \<open>
  What the user and the load code do to the boxes of a section: a click on a pattern box
  toggles it, the load code checks a box, a click on an observation box toggles it.
\<close>

datatype ui_event = ClickPattern string | SetChecked string bool | ClickObservation string nat

definition toggle_observation :: "component_section \<Rightarrow> string \<Rightarrow> nat \<Rightarrow> component_section" where
  "toggle_observation s pattern_name i =
     (case map_of (observation_checkboxes s) pattern_name of
        None \<Rightarrow> s
      | Some boxes \<Rightarrow>
          if i < length boxes
          then s\<lparr>observation_checkboxes :=
                 AList.update pattern_name (boxes[i := (fst (boxes ! i), \<not> snd (boxes ! i))])
                   (observation_checkboxes s)\<rparr>
          else s)"

fun ui_step :: "component_section \<Rightarrow> ui_event \<Rightarrow> component_section" where
  "ui_step s (ClickPattern pattern_name) =
     (case map_of (checkboxes s) pattern_name of
        None \<Rightarrow> s
      | Some current \<Rightarrow> set_checked s pattern_name (\<not> current))"
| "ui_step s (SetChecked pattern_name checked) = set_checked s pattern_name checked"
| "ui_step s (ClickObservation pattern_name i) = toggle_observation s pattern_name i"

definition is_checked :: "component_section \<Rightarrow> string \<Rightarrow> bool" where
  "is_checked s pattern_name = (map_of (checkboxes s) pattern_name = Some True)"

section \<open>Report assembly for a motor's component sections\<close>

text \<open>
  The document is the list of blocks added so far; \<^verbatim>\<open>generate_report\<close> threads it
  together with \<^verbatim>\<open>figure_counter\<close>. Paragraph formatting (alignment, spacing) is
  not modelled. The environment says which paths exist, whether the document library
  accepts a picture (\<^verbatim>\<open>doc.add_picture\<close> raising is an error message, and then no
  block is recorded for it), and where the bearing reference images lie.
\<close>

datatype block = Heading nat string | Paragraph string | Picture string


type_synonym report_state = "block list \<times> nat"

definition add_block :: "block \<Rightarrow> report_state \<Rightarrow> report_state" where
  "add_block b st = (fst st @ [b], snd st)"







subsection \<open>The grouping of observations and inline custom issues\<close>










subsection \<open>One pattern of a section, and the section\<close>




subsection \<open>The grouping as the specification words it\<close>











section \<open>Equipment tabs and their ordinals\<close>

text \<open>
  The part of \<^verbatim>\<open>ReportGeneratorApp\<close> that numbers the equipment: the tab widget (each
  tab with the class of its widget, the widget's number attribute and the tab text), the
  four lists of tab objects and the four counters. A tab object is identified by a
  number given at its creation, so that \<^verbatim>\<open>list.remove(widget)\<close> removes that
  object; the lists hold these identities.
\<close>

datatype equipment_kind = MotorTab | CompressorTab | CoilTab | ValveTab

record equipment_tab =
  tab_id :: nat
  tab_kind :: equipment_kind
  tab_number :: nat
  tab_text :: string

record app_state =
  equipment_tabs_widget :: "equipment_tab list"
  motor_tabs :: "nat list"
  motor_count :: nat
  compressor_tabs :: "nat list"
  compressor_count :: nat
  coil_tabs :: "nat list"
  coil_count :: nat
  valve_tabs :: "nat list"
  valve_count :: nat
  next_tab_id :: nat

definition initial_app :: app_state where
  "initial_app =
     \<lparr>equipment_tabs_widget = [], motor_tabs = [], motor_count = 0, compressor_tabs = [],
      compressor_count = 0, coil_tabs = [], coil_count = 0, valve_tabs = [], valve_count = 0,
      next_tab_id = 0\<rparr>"

definition add_motor_tab :: "app_state \<Rightarrow> app_state" where
  "add_motor_tab st =
     (let n = motor_count st + 1;
          motor_tab = \<lparr>tab_id = next_tab_id st, tab_kind = MotorTab, tab_number = n,
                       tab_text = ''Motor '' @ str_nat n\<rparr>
      in st\<lparr>motor_count := n, motor_tabs := motor_tabs st @ [tab_id motor_tab],
            equipment_tabs_widget := equipment_tabs_widget st @ [motor_tab],
            next_tab_id := next_tab_id st + 1\<rparr>)"

definition add_compressor_tab :: "app_state \<Rightarrow> app_state" where
  "add_compressor_tab st =
     (let n = compressor_count st + 1;
          compressor_tab = \<lparr>tab_id = next_tab_id st, tab_kind = CompressorTab, tab_number = n,
                            tab_text = ''Compressor '' @ str_nat n\<rparr>
      in st\<lparr>compressor_count := n, compressor_tabs := compressor_tabs st @ [tab_id compressor_tab],
            equipment_tabs_widget := equipment_tabs_widget st @ [compressor_tab],
            next_tab_id := next_tab_id st + 1\<rparr>)"

definition add_coil_tab :: "app_state \<Rightarrow> app_state" where
  "add_coil_tab st =
     (let n = coil_count st + 1;
          coil_tab = \<lparr>tab_id = next_tab_id st, tab_kind = CoilTab, tab_number = n,
                      tab_text = ''Coil '' @ str_nat n\<rparr>
      in st\<lparr>coil_count := n, coil_tabs := coil_tabs st @ [tab_id coil_tab],
            equipment_tabs_widget := equipment_tabs_widget st @ [coil_tab],
            next_tab_id := next_tab_id st + 1\<rparr>)"

definition add_valve_tab :: "app_state \<Rightarrow> app_state" where
  "add_valve_tab st =
     (let n = valve_count st + 1;
          valve_tab = \<lparr>tab_id = next_tab_id st, tab_kind = ValveTab, tab_number = n,
                       tab_text = ''Valve '' @ str_nat n\<rparr>
      in st\<lparr>valve_count := n, valve_tabs := valve_tabs st @ [tab_id valve_tab],
            equipment_tabs_widget := equipment_tabs_widget st @ [valve_tab],
            next_tab_id := next_tab_id st + 1\<rparr>)"

text \<open>
  The renumbering loop at the end of \<^verbatim>\<open>remove_equipment_tab\<close>, with its four
  running indices.
\<close>

fun renumber_tabs :: "nat \<Rightarrow> nat \<Rightarrow> nat \<Rightarrow> nat \<Rightarrow> equipment_tab list \<Rightarrow> equipment_tab list" where
  "renumber_tabs motor_index compressor_index coil_index valve_index [] = []"
| "renumber_tabs motor_index compressor_index coil_index valve_index (widget # rest) =
     (case tab_kind widget of
        MotorTab \<Rightarrow>
          widget\<lparr>tab_text := ''Motor '' @ str_nat motor_index, tab_number := motor_index\<rparr>
            # renumber_tabs (motor_index + 1) compressor_index coil_index valve_index rest
      | CompressorTab \<Rightarrow>
          widget\<lparr>tab_text := ''Compressor '' @ str_nat compressor_index,
                 tab_number := compressor_index\<rparr>
            # renumber_tabs motor_index (compressor_index + 1) coil_index valve_index rest
      | CoilTab \<Rightarrow>
          widget\<lparr>tab_text := ''Coil '' @ str_nat coil_index, tab_number := coil_index\<rparr>
            # renumber_tabs motor_index compressor_index (coil_index + 1) valve_index rest
      | ValveTab \<Rightarrow>
          widget\<lparr>tab_text := ''Valve '' @ str_nat valve_index, tab_number := valve_index\<rparr>
            # renumber_tabs motor_index compressor_index coil_index (valve_index + 1) rest)"

text \<open>
  \<^verbatim>\<open>remove_equipment_tab(index)\<close>; \<open>confirmed\<close> is the user's answer to
  the question box. For an index outside the tab widget Qt gives no widget and removes
  nothing. \<^verbatim>\<open>list.remove\<close> raises \<^verbatim>\<open>ValueError\<close> when the object is not in
  the list.
\<close>

definition remove_equipment_tab :: "app_state \<Rightarrow> nat \<Rightarrow> bool \<Rightarrow> py_error + app_state" where
  "remove_equipment_tab st index confirmed =
     (if \<not> confirmed then Inr st
      else if \<not> index < length (equipment_tabs_widget st) then
        Inr (st\<lparr>equipment_tabs_widget := renumber_tabs 1 1 1 1 (equipment_tabs_widget st)\<rparr>)
      else
        (let widget = equipment_tabs_widget st ! index;
             remaining = take index (equipment_tabs_widget st)
                         @ drop (Suc index) (equipment_tabs_widget st)
         in case tab_kind widget of
              MotorTab \<Rightarrow>
                if tab_id widget \<in> set (motor_tabs st) then
                  Inr (st\<lparr>motor_tabs := remove1 (tab_id widget) (motor_tabs st),
                          motor_count := length (remove1 (tab_id widget) (motor_tabs st)),
                          equipment_tabs_widget := renumber_tabs 1 1 1 1 remaining\<rparr>)
                else Inl ValueError
            | CompressorTab \<Rightarrow>
                if tab_id widget \<in> set (compressor_tabs st) then
                  Inr (st\<lparr>compressor_tabs := remove1 (tab_id widget) (compressor_tabs st),
                          compressor_count := length (remove1 (tab_id widget) (compressor_tabs st)),
                          equipment_tabs_widget := renumber_tabs 1 1 1 1 remaining\<rparr>)
                else Inl ValueError
            | CoilTab \<Rightarrow>
                if tab_id widget \<in> set (coil_tabs st) then
                  Inr (st\<lparr>coil_tabs := remove1 (tab_id widget) (coil_tabs st),
                          coil_count := length (remove1 (tab_id widget) (coil_tabs st)),
                          equipment_tabs_widget := renumber_tabs 1 1 1 1 remaining\<rparr>)
                else Inl ValueError
            | ValveTab \<Rightarrow>
                if tab_id widget \<in> set (valve_tabs st) then
                  Inr (st\<lparr>valve_tabs := remove1 (tab_id widget) (valve_tabs st),
                          valve_count := length (remove1 (tab_id widget) (valve_tabs st)),
                          equipment_tabs_widget := renumber_tabs 1 1 1 1 remaining\<rparr>)
                else Inl ValueError))"

text \<open>
  The two load functions from the point where the state file has been read (before
  that they leave the state as it is): the tab widget is emptied, lists and counters are
  reset, and one tab is added per saved unit according to its \<^verbatim>\<open>'type'\<close>. Filling
  the sections of the new tab does not touch the numbering and is left out here.
  \<^verbatim>\<open>load_progress\<close> (the "Load Progress" button) resets the motor, compressor and
  coil lists and counters; \<^verbatim>\<open>load_progress_from_path\<close> also resets the valve list
  and counter.
\<close>

definition add_loaded_tab :: "app_state \<Rightarrow> string \<Rightarrow> app_state" where
  "add_loaded_tab st equipment_type =
     (if equipment_type = ''motor'' then add_motor_tab st
      else if equipment_type = ''coil'' then add_coil_tab st
      else if equipment_type = ''valve'' then add_valve_tab st
      else add_compressor_tab st)"

definition load_progress :: "app_state \<Rightarrow> string list \<Rightarrow> app_state" where
  "load_progress st equipment_types =
     foldl add_loaded_tab
       (st\<lparr>equipment_tabs_widget := [], motor_tabs := [], compressor_tabs := [], coil_tabs := [],
           motor_count := 0, compressor_count := 0, coil_count := 0\<rparr>)
       equipment_types"

definition load_progress_from_path :: "app_state \<Rightarrow> string list \<Rightarrow> app_state" where
  "load_progress_from_path st equipment_types =
     foldl add_loaded_tab
       (st\<lparr>equipment_tabs_widget := [], motor_tabs := [], compressor_tabs := [], coil_tabs := [],
           valve_tabs := [], motor_count := 0, compressor_count := 0, coil_count := 0,
           valve_count := 0\<rparr>)
       equipment_types"

definition ordinals :: "equipment_kind \<Rightarrow> app_state \<Rightarrow> nat list" where
  "ordinals kind st =
     map tab_number (filter (\<lambda>widget. tab_kind widget = kind) (equipment_tabs_widget st))"

section \<open>Copying images into the image store\<close>

text \<open>
  \<^verbatim>\<open>ReportGeneratorApp._copy_images(image_paths, dest_folder)\<close>. The file system is a
  finite list of regular files, path and bytes, the first entry of a path counting;
  \<^verbatim>\<open>shutil.copy2\<close> puts a new entry in front. \<^verbatim>\<open>filecmp.cmp(a, b, shallow=False)\<close>
  compares the bytes and raises \<^verbatim>\<open>OSError\<close> for a missing file; the source
  passes over any exception of the comparison. Failing writes (full disk, permissions)
  are not modelled.
\<close>

type_synonym file_system = "(string \<times> string) list"

definition path_exists_in :: "file_system \<Rightarrow> string \<Rightarrow> bool" where
  "path_exists_in fs p = (map_of fs p \<noteq> None)"

definition filecmp_cmp :: "file_system \<Rightarrow> string \<Rightarrow> string \<Rightarrow> py_error + bool" where
  "filecmp_cmp fs a b =
     (case (map_of fs a, map_of fs b) of
        (Some x, Some y) \<Rightarrow> Inr (x = y)
      | _ \<Rightarrow> Inl OSError)"

definition numbered_name :: "string \<Rightarrow> string \<Rightarrow> nat \<Rightarrow> string" where
  "numbered_name base ext counter = base @ ''_'' @ str_nat counter @ ext"

text \<open>
  The \<^verbatim>\<open>while ... else\<close> loop that looks for the name: the result is the name and
  whether the file has to be copied (the \<^verbatim>\<open>else\<close> branch of the loop) or an
  identical file was found (\<^verbatim>\<open>break\<close>). It ends because the numbered names are
  pairwise different and the store is finite.
\<close>

function find_name :: "file_system \<Rightarrow> string \<Rightarrow> string \<Rightarrow> string \<Rightarrow> string \<Rightarrow> string \<Rightarrow> nat \<Rightarrow> string \<times> bool" where
  "find_name fs dest_folder img_path base ext new_filename counter =
     (if path_exists_in fs (path_join dest_folder new_filename) then
        (if filecmp_cmp fs img_path (path_join dest_folder new_filename) = Inr True
         then (new_filename, False)
         else find_name fs dest_folder img_path base ext (numbered_name base ext counter) (counter + 1))
      else (new_filename, True))"
  by pat_completeness auto
termination
proof (relation "measure (\<lambda>(fs, dest_folder, img_path, base, ext, new_filename, counter).
      card {k. counter \<le> k \<and> path_exists_in fs (path_join dest_folder (numbered_name base ext k))}
      + (if path_exists_in fs (path_join dest_folder new_filename) then 1 else 0))", goal_cases)
  case 1
  show ?case by simp
next
  case (2 fs dest_folder img_path base ext new_filename counter)
  have dv: "digit_value (digit_char d) = d" if "d < 10" for d
  proof -
    from that have "d \<in> {0, 1, 2, 3, 4, 5, 6, 7, 8, 9}" by auto
    then show ?thesis by (auto simp add: digit_value_def digit_char_def)
  qed
  have snoc: "decimal_value (ds @ [c]) = 10 * decimal_value ds + digit_value c" for ds c
    by (simp add: decimal_value_def)
  have val: "decimal_value (str_nat n) = n" for n
  proof (induction n rule: str_nat.induct)
    case (1 n)
    show ?case
    proof (cases "n < 10")
      case True
      then show ?thesis by (subst str_nat.simps) (simp add: decimal_value_def dv)
    next
      case False
      then have "decimal_value (str_nat n) = 10 * decimal_value (str_nat (n div 10)) + digit_value (digit_char (n mod 10))"
        by (subst str_nat.simps) (simp add: snoc)
      also have "\<dots> = 10 * (n div 10) + n mod 10"
        using 1 False by (simp add: dv)
      finally show ?thesis by simp
    qed
  qed
  have inj_str: "k = k'" if "str_nat k = str_nat k'" for k k'
    using that by (metis val)
  let ?P = "\<lambda>k. path_join dest_folder (numbered_name base ext k)"
  obtain pre where pre: "\<And>k. ?P k = pre @ numbered_name base ext k"
  proof (cases base)
    case Nil
    show ?thesis
      by (rule that [of "if dest_folder = [] \<or> last dest_folder = CHR ''/'' then dest_folder
            else dest_folder @ ''/''"])
        (simp add: path_join_def numbered_name_def Nil)
  next
    case (Cons c cs)
    show ?thesis
      by (rule that [of "if c = CHR ''/'' then []
            else if dest_folder = [] \<or> last dest_folder = CHR ''/'' then dest_folder
            else dest_folder @ ''/''"])
        (simp add: path_join_def numbered_name_def Cons)
  qed
  have inj: "inj ?P"
  proof (rule injI)
    fix k k' assume "?P k = ?P k'"
    then have "pre @ numbered_name base ext k = pre @ numbered_name base ext k'"
      unfolding pre .
    then have "str_nat k = str_nat k'"
      by (simp add: numbered_name_def)
    then show "k = k'" by (rule inj_str)
  qed
  let ?A = "\<lambda>c. {k. c \<le> k \<and> path_exists_in fs (?P k)}"
  have "finite (?P -` dom (map_of fs))"
    using inj by (intro finite_vimageI) (simp_all add: finite_dom_map_of)
  moreover have "?A counter \<subseteq> ?P -` dom (map_of fs)"
    by (auto simp add: path_exists_in_def)
  ultimately have fin: "finite (?A counter)" by (rule rev_finite_subset)
  have split: "?A counter = ?A (counter + 1) \<union> (if path_exists_in fs (?P counter) then {counter} else {})"
    by (auto simp add: le_less Suc_le_eq split: if_splits)
  have "card (?A counter) = card (?A (counter + 1)) + (if path_exists_in fs (?P counter) then 1 else 0)"
  proof (cases "path_exists_in fs (?P counter)")
    case False
    with split show ?thesis by simp
  next
    case True
    with split have "?A counter = insert counter (?A (counter + 1))" by simp
    moreover have "counter \<notin> ?A (counter + 1)" by simp
    moreover have "finite (?A (counter + 1))" using fin split by (metis finite_Un)
    ultimately show ?thesis using True by simp
  qed
  with 2 show ?case by simp
qed

text \<open>The body of \<^verbatim>\<open>for img_path in image_paths\<close>, and the loop.\<close>

definition copy_image :: "string \<Rightarrow> file_system \<times> string list \<Rightarrow> string \<Rightarrow> file_system \<times> string list" where
  "copy_image dest_folder state img_path =
     (let fs = fst state; copied_paths = snd state in
      if \<not> path_exists_in fs img_path then state
      else
        (let filename = basename img_path;
             dest_path = path_join dest_folder filename
         in if path_exists_in fs dest_path \<and> filecmp_cmp fs img_path dest_path = Inr True
            then (fs, copied_paths @ [filename])
            else
              (let base = fst (splitext filename);
                   ext = snd (splitext filename);
                   found = find_name fs dest_folder img_path base ext filename 1
               in if snd found
                  then ((path_join dest_folder (fst found), the (map_of fs img_path)) # fs,
                        copied_paths @ [fst found])
                  else (fs, copied_paths @ [fst found]))))"

definition copy_images :: "file_system \<Rightarrow> string list \<Rightarrow> string \<Rightarrow> file_system \<times> string list" where
  "copy_images fs image_paths dest_folder = foldl (copy_image dest_folder) (fs, []) image_paths"

text \<open>
  The names that the loop tries for a source file, in order: its base filename, then
  the numbered names from 1 on.
\<close>

definition candidate :: "string \<Rightarrow> nat \<Rightarrow> string" where
  "candidate img_path k =
     (if k = 0 then basename img_path
      else numbered_name (fst (splitext (basename img_path))) (snd (splitext (basename img_path))) k)"

text \<open>
  The names that the \<^verbatim>\<open>while\<close> loop tries when it is entered with a name and a
  counter (used in the proofs).
\<close>

definition probe :: "string \<Rightarrow> string \<Rightarrow> string \<Rightarrow> nat \<Rightarrow> nat \<Rightarrow> string" where
  "probe base ext name counter i = (if i = 0 then name else numbered_name base ext (counter + i - 1))"


chapter \<open>Properties\<close>

subsection \<open>Vibration severity classification: results\<close>

lemma classified_good:
  assumes "math_pow_half (r / 1000) = Inr f"
    and "\<not> v \<le> 0.28 * f" and "\<not> v \<le> 0.45 * f" and "\<not> v \<le> 0.71 * f"
    and "v \<le> 1.12 * f"
  shows "get_vibration_classification (Some r) (Some v) = (''Good'', True)"
  using assms by (simp add: get_vibration_classification_def Let_def)

lemma sqrt_14_bounds: "1 \<le> sqrt (7 / 5) \<and> sqrt (7 / 5) \<le> (6 / 5 :: real)"
proof
  show "1 \<le> sqrt (7 / 5)" by simp
  have "sqrt (7 / 5) \<le> sqrt ((6 / 5)\<^sup>2 :: real)"
    by (rule real_sqrt_le_mono) (simp add: power2_eq_square)
  then show "sqrt (7 / 5) \<le> (6 / 5 :: real)" by simp
qed

text \<open>
  C1. The spec asks that rpm 1400 with 1.1 mm/s be classified "Fair", not acceptable
  (the calibration point named in the source comment). The code computes the factor
  sqrt 1.4 (about 1.183), so the "Good" threshold is 1.12 * 1.183 (about 1.325), which
  1.1 does not exceed, while the "Smooth" threshold 0.71 * 1.183 (about 0.840) is
  exceeded: the code answers ("Good", True).
\<close>

theorem vibration_1400_1_1_is_good:
  "get_vibration_classification (Some 1400) (Some 1.1) = (''Good'', True)"
proof -
  have f: "math_pow_half (1400 / 1000) = Inr (sqrt (7 / 5))"
    by (simp add: math_pow_half_def)
  from sqrt_14_bounds have lo: "1 \<le> sqrt (7 / 5)" and hi: "sqrt (7 / 5) \<le> (6 / 5 :: real)"
    by simp_all
  from hi have a: "\<not> (1.1 :: real) \<le> 0.28 * sqrt (7 / 5)" by simp
  from hi have b: "\<not> (1.1 :: real) \<le> 0.45 * sqrt (7 / 5)" by simp
  from hi have c: "\<not> (1.1 :: real) \<le> 0.71 * sqrt (7 / 5)" by simp
  have "(1.1 :: real) \<le> 1.12 * 1" by simp
  also have "\<dots> \<le> 1.12 * sqrt (7 / 5)"
    using lo by (intro mult_left_mono) simp_all
  finally have d: "(1.1 :: real) \<le> 1.12 * sqrt (7 / 5)" .
  show ?thesis
    by (rule classified_good [OF f a b c d])
qed




subsection \<open>Numeric extraction: the matcher in closed form\<close>














































subsection \<open>Status check boxes\<close>

declare set_checked.simps [simp del] toggle_status_checkbox.simps [simp del]

lemma set_container_visible_fields [simp]:
  "checkboxes (set_container_visible s p v) = checkboxes s"
  "title (set_container_visible s p v) = title s"
  "observation_checkboxes (set_container_visible s p v) = observation_checkboxes s"
  "pattern_image_widgets (set_container_visible s p v) = pattern_image_widgets s"
  "custom_patterns (set_container_visible s p v) = custom_patterns s"
  "notes_text (set_container_visible s p v) = notes_text s"
  "image_widget (set_container_visible s p v) = image_widget s"
  "wear_patterns (set_container_visible s p v) = wear_patterns s"
  by (simp_all add: set_container_visible_def)

lemma set_checked_False:
  "set_checked s p False =
     (if map_of (checkboxes s) p = Some True
      then set_container_visible (s\<lparr>checkboxes := AList.update p False (checkboxes s)\<rparr>) p False
      else s)"
  by (cases "map_of (checkboxes s) p")
    (auto simp add: set_checked.simps [of s p False] toggle_status_checkbox.simps
      toggle_pattern_section_def)

lemma set_checked_status_True:
  assumes "title s \<in> set status_titles"
    and "p = ''Status: OK'' \<and> q = ''Status: NOT OK'' \<or> p = ''Status: NOT OK'' \<and> q = ''Status: OK''"
  shows "set_checked s p True =
     (if map_of (checkboxes s) p = Some False
      then (if map_of (checkboxes s) q \<noteq> None
            then set_checked
                   (set_container_visible (s\<lparr>checkboxes := AList.update p True (checkboxes s)\<rparr>) p True)
                   q False
            else set_container_visible (s\<lparr>checkboxes := AList.update p True (checkboxes s)\<rparr>) p True)
      else s)"
  using assms
  by (cases "map_of (checkboxes s) p")
    (auto simp add: set_checked.simps [of s p True] toggle_status_checkbox.simps
      AList.update_conv')

lemma set_checked_other:
  assumes "\<not> (title s \<in> set status_titles \<and> (p = ''Status: OK'' \<or> p = ''Status: NOT OK''))"
  shows "set_checked s p c =
     (case map_of (checkboxes s) p of
        None \<Rightarrow> s
      | Some current \<Rightarrow>
          if current = c then s
          else set_container_visible (s\<lparr>checkboxes := AList.update p c (checkboxes s)\<rparr>) p c)"
  using assms
  by (cases "map_of (checkboxes s) p")
    (auto simp add: set_checked.simps [of s p c] toggle_pattern_section_def)

lemma set_checked_preserves:
  "title (set_checked s p c) = title s
   \<and> observation_checkboxes (set_checked s p c) = observation_checkboxes s
   \<and> pattern_image_widgets (set_checked s p c) = pattern_image_widgets s
   \<and> custom_patterns (set_checked s p c) = custom_patterns s
   \<and> notes_text (set_checked s p c) = notes_text s
   \<and> image_widget (set_checked s p c) = image_widget s
   \<and> wear_patterns (set_checked s p c) = wear_patterns s"
proof (cases c)
  case False
  then show ?thesis by (simp add: set_checked_False)
next
  case True
  then have c: "c = True" by simp
  show ?thesis
  proof (cases "title s \<in> set status_titles \<and> (p = ''Status: OK'' \<or> p = ''Status: NOT OK'')")
    case False
    then show ?thesis
      by (simp add: set_checked_other split: option.splits)
  next
    case st: True
    then obtain q where
      pq: "p = ''Status: OK'' \<and> q = ''Status: NOT OK'' \<or> p = ''Status: NOT OK'' \<and> q = ''Status: OK''"
      by auto
    from st have t: "title s \<in> set status_titles" by simp
    show ?thesis
      unfolding c set_checked_status_True [OF t pq]
      by (simp add: set_checked_False)
  qed
qed

lemma checkboxes_set_checked_False:
  "map_of (checkboxes (set_checked s p False)) =
     (if map_of (checkboxes s) p = Some True then (map_of (checkboxes s))(p \<mapsto> False)
      else map_of (checkboxes s))"
  by (simp add: set_checked_False AList.update_conv')

lemma checkboxes_set_checked_status_True:
  assumes "title s \<in> set status_titles"
    and "p = ''Status: OK'' \<and> q = ''Status: NOT OK'' \<or> p = ''Status: NOT OK'' \<and> q = ''Status: OK''"
  shows "map_of (checkboxes (set_checked s p True)) =
     (if map_of (checkboxes s) p = Some False
      then (if map_of (checkboxes s) q = Some True
            then (map_of (checkboxes s))(p \<mapsto> True, q \<mapsto> False)
            else (map_of (checkboxes s))(p \<mapsto> True))
      else map_of (checkboxes s))"
proof -
  from assms(2) have ne: "p \<noteq> q" by auto
  show ?thesis
    unfolding set_checked_status_True [OF assms]
    using ne by (auto simp add: checkboxes_set_checked_False AList.update_conv')
qed

lemma checkboxes_set_checked_other:
  assumes "\<not> (title s \<in> set status_titles \<and> (p = ''Status: OK'' \<or> p = ''Status: NOT OK''))"
  shows "map_of (checkboxes (set_checked s p c)) =
     (if map_of (checkboxes s) p = None then map_of (checkboxes s)
      else (map_of (checkboxes s))(p \<mapsto> c))"
  unfolding set_checked_other [OF assms]
  by (auto simp add: AList.update_conv' split: option.splits)

definition exclusive :: "component_section \<Rightarrow> bool" where
  "exclusive s = (\<not> (is_checked s ''Status: OK'' \<and> is_checked s ''Status: NOT OK''))"

lemma set_checked_exclusive:
  assumes t: "title s \<in> set status_titles" and e: "exclusive s"
  shows "exclusive (set_checked s p c)"
proof (cases "p = ''Status: OK'' \<or> p = ''Status: NOT OK''")
  case False
  with e show ?thesis
    by (auto simp add: exclusive_def is_checked_def checkboxes_set_checked_other)
next
  case True
  then obtain q where
    pq: "p = ''Status: OK'' \<and> q = ''Status: NOT OK'' \<or> p = ''Status: NOT OK'' \<and> q = ''Status: OK''"
    by auto
  show ?thesis
  proof (cases c)
    case False
    with e show ?thesis
      by (auto simp add: exclusive_def is_checked_def checkboxes_set_checked_False)
  next
    case True
    then have c: "c = True" by simp
    from e pq show ?thesis
      unfolding c exclusive_def is_checked_def checkboxes_set_checked_status_True [OF t pq]
      by (auto split: if_splits)
  qed
qed

lemma init_pattern_fields:
  "title (init_pattern s e) = title s"
  "map_of (checkboxes (init_pattern s e)) = (map_of (checkboxes s))(fst e \<mapsto> False)"
  by (simp_all add: init_pattern_def Let_def AList.update_conv')

lemma foldl_init_pattern_fields:
  "title (foldl init_pattern s cat) = title s
   \<and> ((\<forall>p. map_of (checkboxes s) p \<noteq> Some True)
        \<longrightarrow> (\<forall>p. map_of (checkboxes (foldl init_pattern s cat)) p \<noteq> Some True))"
  by (induction cat arbitrary: s) (simp_all add: init_pattern_fields)

lemma init_section_unchecked:
  "title (init_section t cat) = t" "\<not> is_checked (init_section t cat) p"
  using foldl_init_pattern_fields [of "\<lparr>title = t, wear_patterns = cat, checkboxes = [],
        observation_containers = [], observation_checkboxes = [], pattern_image_widgets = [],
        custom_patterns = [], notes_text = [], image_widget = []\<rparr>" cat]
  by (simp_all add: init_section_def is_checked_def)

lemma toggle_observation_fields [simp]:
  "title (toggle_observation s p i) = title s"
  "checkboxes (toggle_observation s p i) = checkboxes s"
  by (simp_all add: toggle_observation_def split: option.splits)

lemma ui_step_invariant:
  assumes "title s \<in> set status_titles" and "exclusive s"
  shows "title (ui_step s ev) \<in> set status_titles \<and> exclusive (ui_step s ev)"
proof (cases ev)
  case (ClickPattern p)
  with assms show ?thesis
    by (cases "map_of (checkboxes s) p") (simp_all add: set_checked_preserves set_checked_exclusive)
next
  case (SetChecked p c)
  with assms show ?thesis
    by (simp add: set_checked_preserves set_checked_exclusive)
next
  case (ClickObservation p i)
  with assms show ?thesis
    by (simp add: exclusive_def is_checked_def)
qed

lemma reachable_invariant:
  assumes "title s \<in> set status_titles" and "exclusive s"
  shows "title (foldl ui_step s events) \<in> set status_titles \<and> exclusive (foldl ui_step s events)"
  using assms
proof (induction events arbitrary: s)
  case Nil
  then show ?case by simp
next
  case (Cons ev events)
  from ui_step_invariant [OF Cons.prems] show ?case
    by (simp add: Cons.IH)
qed

lemma select_status:
  assumes t: "title s \<in> set status_titles"
    and pq: "p = ''Status: OK'' \<and> q = ''Status: NOT OK'' \<or> p = ''Status: NOT OK'' \<and> q = ''Status: OK''"
    and k: "map_of (checkboxes s) p \<noteq> None"
    and e: "exclusive s"
  shows "is_checked (set_checked s p True) p \<and> \<not> is_checked (set_checked s p True) q"
  using pq k e unfolding exclusive_def is_checked_def checkboxes_set_checked_status_True [OF t pq]
  by auto

lemma deselect_status:
  assumes pq: "p = ''Status: OK'' \<and> q = ''Status: NOT OK'' \<or> p = ''Status: NOT OK'' \<and> q = ''Status: OK''"
    and e: "exclusive s" and c: "is_checked s p"
  shows "\<not> is_checked (set_checked s p False) p \<and> \<not> is_checked (set_checked s p False) q"
  using pq e c unfolding exclusive_def is_checked_def checkboxes_set_checked_False
  by auto

text \<open>
  C6. In every state that a status-bearing section reaches from its initial state by
  clicks on pattern boxes, programmatic checks and clicks on observation boxes,
  "Status: OK" and "Status: NOT OK" are not both selected. In a state where they are not
  both selected, selecting one (a box the section has) leaves it selected and the other
  one not selected, and changes neither the observation boxes nor the image widgets nor
  the custom entries; deselecting the selected one leaves neither selected.
\<close>

theorem status_mutual_exclusion:
  "(section_title \<in> set status_titles \<longrightarrow>
      \<not> (is_checked (foldl ui_step (init_section section_title catalog) events) ''Status: OK''
         \<and> is_checked (foldl ui_step (init_section section_title catalog) events) ''Status: NOT OK''))
   \<and> (title s \<in> set status_titles
        \<and> (p = ''Status: OK'' \<and> q = ''Status: NOT OK'' \<or> p = ''Status: NOT OK'' \<and> q = ''Status: OK'')
        \<and> \<not> (is_checked s p \<and> is_checked s q) \<longrightarrow>
        (map_of (checkboxes s) p \<noteq> None \<longrightarrow>
           is_checked (set_checked s p True) p \<and> \<not> is_checked (set_checked s p True) q)
        \<and> observation_checkboxes (set_checked s p True) = observation_checkboxes s
        \<and> pattern_image_widgets (set_checked s p True) = pattern_image_widgets s
        \<and> custom_patterns (set_checked s p True) = custom_patterns s
        \<and> (is_checked s p \<longrightarrow>
             \<not> is_checked (set_checked s p False) p \<and> \<not> is_checked (set_checked s p False) q))"
proof -
  have reach: "section_title \<in> set status_titles \<longrightarrow>
      \<not> (is_checked (foldl ui_step (init_section section_title catalog) events) ''Status: OK''
         \<and> is_checked (foldl ui_step (init_section section_title catalog) events) ''Status: NOT OK'')"
  proof
    assume t: "section_title \<in> set status_titles"
    have "exclusive (init_section section_title catalog)"
      by (simp add: exclusive_def init_section_unchecked)
    with t have "exclusive (foldl ui_step (init_section section_title catalog) events)"
      using reachable_invariant [of "init_section section_title catalog" events]
      by (simp add: init_section_unchecked)
    then show "\<not> (is_checked (foldl ui_step (init_section section_title catalog) events) ''Status: OK''
         \<and> is_checked (foldl ui_step (init_section section_title catalog) events) ''Status: NOT OK'')"
      by (simp add: exclusive_def)
  qed
  have step: "title s \<in> set status_titles
        \<and> (p = ''Status: OK'' \<and> q = ''Status: NOT OK'' \<or> p = ''Status: NOT OK'' \<and> q = ''Status: OK'')
        \<and> \<not> (is_checked s p \<and> is_checked s q) \<longrightarrow>
        (map_of (checkboxes s) p \<noteq> None \<longrightarrow>
           is_checked (set_checked s p True) p \<and> \<not> is_checked (set_checked s p True) q)
        \<and> observation_checkboxes (set_checked s p True) = observation_checkboxes s
        \<and> pattern_image_widgets (set_checked s p True) = pattern_image_widgets s
        \<and> custom_patterns (set_checked s p True) = custom_patterns s
        \<and> (is_checked s p \<longrightarrow>
             \<not> is_checked (set_checked s p False) p \<and> \<not> is_checked (set_checked s p False) q)"
  proof (intro impI, elim conjE)
    assume t: "title s \<in> set status_titles"
      and pq: "p = ''Status: OK'' \<and> q = ''Status: NOT OK'' \<or> p = ''Status: NOT OK'' \<and> q = ''Status: OK''"
      and n: "\<not> (is_checked s p \<and> is_checked s q)"
    from pq n have e: "exclusive s" by (auto simp add: exclusive_def)
    have a: "map_of (checkboxes s) p \<noteq> None \<longrightarrow>
           is_checked (set_checked s p True) p \<and> \<not> is_checked (set_checked s p True) q"
      using select_status [OF t pq _ e] by blast
    have b: "is_checked s p \<longrightarrow>
             \<not> is_checked (set_checked s p False) p \<and> \<not> is_checked (set_checked s p False) q"
      using deselect_status [OF pq e] by blast
    from a b set_checked_preserves [of s p True] show
      "(map_of (checkboxes s) p \<noteq> None \<longrightarrow>
           is_checked (set_checked s p True) p \<and> \<not> is_checked (set_checked s p True) q)
        \<and> observation_checkboxes (set_checked s p True) = observation_checkboxes s
        \<and> pattern_image_widgets (set_checked s p True) = pattern_image_widgets s
        \<and> custom_patterns (set_checked s p True) = custom_patterns s
        \<and> (is_checked s p \<longrightarrow>
             \<not> is_checked (set_checked s p False) p \<and> \<not> is_checked (set_checked s p False) q)"
      by simp
  qed
  from reach step show ?thesis by (rule conjI)
qed

theorem status_mutual_exclusion_witness:
  "''Motor Housing'' \<in> set status_titles
   \<and> \<not> (is_checked (foldl ui_step (init_section ''Motor Housing'' housing_wear_patterns)
              [ClickPattern ''Status: NOT OK'', ClickPattern ''Status: OK'']) ''Status: OK''
        \<and> is_checked (foldl ui_step (init_section ''Motor Housing'' housing_wear_patterns)
              [ClickPattern ''Status: NOT OK'', ClickPattern ''Status: OK'']) ''Status: NOT OK'')
   \<and> is_checked
        \<lparr>title = ''Motor Housing'', wear_patterns = [],
         checkboxes = [(''Status: OK'', True), (''Status: NOT OK'', False)],
         observation_containers = [], observation_checkboxes = [], pattern_image_widgets = [],
         custom_patterns = [], notes_text = [], image_widget = []\<rparr> ''Status: OK''
   \<and> \<not> is_checked (set_checked
        \<lparr>title = ''Motor Housing'', wear_patterns = [],
         checkboxes = [(''Status: OK'', True), (''Status: NOT OK'', False)],
         observation_containers = [], observation_checkboxes = [], pattern_image_widgets = [],
         custom_patterns = [], notes_text = [], image_widget = []\<rparr> ''Status: OK'' False) ''Status: OK''
   \<and> \<not> is_checked (set_checked
        \<lparr>title = ''Motor Housing'', wear_patterns = [],
         checkboxes = [(''Status: OK'', True), (''Status: NOT OK'', False)],
         observation_containers = [], observation_checkboxes = [], pattern_image_widgets = [],
         custom_patterns = [], notes_text = [], image_widget = []\<rparr> ''Status: OK'' False) ''Status: NOT OK''"
  using status_mutual_exclusion [of "''Motor Housing''" housing_wear_patterns
      "[ClickPattern ''Status: NOT OK'', ClickPattern ''Status: OK'']"
      "\<lparr>title = ''Motor Housing'', wear_patterns = [],
         checkboxes = [(''Status: OK'', True), (''Status: NOT OK'', False)],
         observation_containers = [], observation_checkboxes = [], pattern_image_widgets = [],
         custom_patterns = [], notes_text = [], image_widget = []\<rparr>"
      "''Status: OK''" "''Status: NOT OK''"]
  by (simp add: status_titles_def is_checked_def)

subsection \<open>Report assembly\<close>

lemma add_block_fields [simp]:
  "fst (add_block b st) = fst st @ [b]" "snd (add_block b st) = snd st"
  by (simp_all add: add_block_def)




















subsection \<open>Equipment ordinals\<close>

text \<open>
  C8. With one valve open, "Load Progress" of a project that holds one valve gives that
  valve the ordinal 2 and the tab text "Valve 2": \<^verbatim>\<open>load_progress\<close> does not reset
  \<^verbatim>\<open>valve_count\<close>, as \<^verbatim>\<open>load_progress_from_path\<close> does, which numbers the
  same valve 1.
\<close>

theorem load_progress_valve_ordinal:
  "ordinals ValveTab (load_progress (add_valve_tab initial_app) [''valve'']) = [2]
   \<and> map tab_text (equipment_tabs_widget (load_progress (add_valve_tab initial_app) [''valve'']))
       = [''Valve 2'']
   \<and> ordinals ValveTab (load_progress_from_path (add_valve_tab initial_app) [''valve'']) = [1]"
  by code_simp

subsection \<open>Copying images\<close>

declare find_name.simps [simp del]

lemma find_name_probe:
  "find_name fs dest img base ext name counter = (n, copy) \<Longrightarrow>
   \<exists>i. n = probe base ext name counter i
     \<and> (\<forall>j<i. path_exists_in fs (path_join dest (probe base ext name counter j))
              \<and> filecmp_cmp fs img (path_join dest (probe base ext name counter j)) \<noteq> Inr True)
     \<and> (if copy then \<not> path_exists_in fs (path_join dest n)
         else path_exists_in fs (path_join dest n)
              \<and> filecmp_cmp fs img (path_join dest n) = Inr True)"
proof (induction fs dest img base ext name counter rule: find_name.induct)
  case (1 fs dest img base ext name counter)
  show ?case
  proof (cases "path_exists_in fs (path_join dest name)")
    case False
    with "1.prems" have "n = name" "copy" by (simp_all add: find_name.simps [of fs dest img base ext name counter])
    with False show ?thesis by (intro exI [of _ 0]) (simp add: probe_def)
  next
    case ex: True
    show ?thesis
    proof (cases "filecmp_cmp fs img (path_join dest name) = Inr True")
      case True
      with ex "1.prems" have "n = name" "\<not> copy"
        by (simp_all add: find_name.simps [of fs dest img base ext name counter])
      with ex True show ?thesis by (intro exI [of _ 0]) (simp add: probe_def)
    next
      case False
      with ex "1.prems" have
        r: "find_name fs dest img base ext (numbered_name base ext counter) (counter + 1) = (n, copy)"
        by (simp add: find_name.simps [of fs dest img base ext name counter])
      from "1.IH" [OF ex False r] obtain i where
        i: "n = probe base ext (numbered_name base ext counter) (counter + 1) i"
        and before: "\<forall>j<i. path_exists_in fs
                 (path_join dest (probe base ext (numbered_name base ext counter) (counter + 1) j))
              \<and> filecmp_cmp fs img
                 (path_join dest (probe base ext (numbered_name base ext counter) (counter + 1) j))
                \<noteq> Inr True"
        and at: "if copy then \<not> path_exists_in fs (path_join dest n)
         else path_exists_in fs (path_join dest n)
              \<and> filecmp_cmp fs img (path_join dest n) = Inr True"
        by blast
      have shift: "probe base ext (numbered_name base ext counter) (counter + 1) j
          = probe base ext name counter (Suc j)" for j
        by (simp add: probe_def)
      have "\<forall>j<Suc i. path_exists_in fs (path_join dest (probe base ext name counter j))
              \<and> filecmp_cmp fs img (path_join dest (probe base ext name counter j)) \<noteq> Inr True"
      proof (intro allI impI)
        fix j assume "j < Suc i"
        show "path_exists_in fs (path_join dest (probe base ext name counter j))
              \<and> filecmp_cmp fs img (path_join dest (probe base ext name counter j)) \<noteq> Inr True"
        proof (cases j)
          case 0
          with ex False show ?thesis by (simp add: probe_def)
        next
          case (Suc j')
          with \<open>j < Suc i\<close> have "j' < i" by simp
          with before have "path_exists_in fs
                 (path_join dest (probe base ext (numbered_name base ext counter) (counter + 1) j'))
              \<and> filecmp_cmp fs img
                 (path_join dest (probe base ext (numbered_name base ext counter) (counter + 1) j'))
                \<noteq> Inr True" by blast
          then show ?thesis unfolding shift Suc .
        qed
      qed
      with i at shift [of i] show ?thesis by (intro exI [of _ "Suc i"]) simp
    qed
  qed
qed

lemma probe_candidate:
  "probe (fst (splitext (basename img))) (snd (splitext (basename img))) (basename img) 1 i
     = candidate img i"
  by (simp add: probe_def candidate_def)

lemma filecmp_same:
  "map_of fs img = Some c \<Longrightarrow>
   (filecmp_cmp fs img p = Inr True) = (map_of fs p = Some c)"
  by (auto simp add: filecmp_cmp_def split: option.splits)

lemma copy_image_missing:
  "map_of fs img = None \<Longrightarrow> copy_image dest (fs, cp) img = (fs, cp)"
  by (simp add: copy_image_def path_exists_in_def)

lemma copy_image_spec:
  assumes c: "map_of fs img = Some c"
  shows "\<exists>k. copy_image dest (fs, cp) img
            = (if map_of fs (path_join dest (candidate img k)) = Some c then fs
               else (path_join dest (candidate img k), c) # fs,
               cp @ [candidate img k])
         \<and> (\<forall>j<k. map_of fs (path_join dest (candidate img j)) \<noteq> None
                \<and> map_of fs (path_join dest (candidate img j)) \<noteq> Some c)
         \<and> (map_of fs (path_join dest (candidate img k)) = Some c
              \<or> map_of fs (path_join dest (candidate img k)) = None)"
proof (cases "map_of fs (path_join dest (basename img)) = Some c")
  case True
  with c have "copy_image dest (fs, cp) img = (fs, cp @ [basename img])"
    by (simp add: copy_image_def path_exists_in_def filecmp_same Let_def)
  with True show ?thesis
    by (intro exI [of _ 0]) (simp add: candidate_def)
next
  case False
  let ?base = "fst (splitext (basename img))"
  let ?ext = "snd (splitext (basename img))"
  obtain n copy where f: "find_name fs dest img ?base ?ext (basename img) 1 = (n, copy)"
    by (cases "find_name fs dest img ?base ?ext (basename img) 1")
  from find_name_probe [OF f] obtain k where
    n: "n = candidate img k"
    and before: "\<forall>j<k. path_exists_in fs (path_join dest (candidate img j))
              \<and> filecmp_cmp fs img (path_join dest (candidate img j)) \<noteq> Inr True"
    and at: "if copy then \<not> path_exists_in fs (path_join dest n)
         else path_exists_in fs (path_join dest n)
              \<and> filecmp_cmp fs img (path_join dest n) = Inr True"
    unfolding probe_candidate by blast
  from c False f have r: "copy_image dest (fs, cp) img
      = (if copy then (path_join dest n, c) # fs else fs, cp @ [n])"
    by (simp add: copy_image_def path_exists_in_def filecmp_same Let_def)
  from before c have b: "\<forall>j<k. map_of fs (path_join dest (candidate img j)) \<noteq> None
                \<and> map_of fs (path_join dest (candidate img j)) \<noteq> Some c"
    by (simp add: path_exists_in_def filecmp_same)
  show ?thesis
  proof (cases copy)
    case True
    with at have "map_of fs (path_join dest n) = None" by (simp add: path_exists_in_def)
    with r True b n show ?thesis by (intro exI [of _ k]) simp
  next
    case False
    with at c have "map_of fs (path_join dest n) = Some c"
      by (simp add: filecmp_same)
    with r False b n show ?thesis by (intro exI [of _ k]) simp
  qed
qed

lemma copy_image_preserves:
  assumes "map_of fs p = Some x"
  shows "map_of (fst (copy_image dest (fs, cp) img)) p = Some x"
proof (cases "map_of fs img")
  case None
  with assms show ?thesis by (simp add: copy_image_missing)
next
  case (Some c)
  from copy_image_spec [OF Some, of dest cp] obtain k where
    "copy_image dest (fs, cp) img
            = (if map_of fs (path_join dest (candidate img k)) = Some c then fs
               else (path_join dest (candidate img k), c) # fs,
               cp @ [candidate img k])"
    and "map_of fs (path_join dest (candidate img k)) = Some c
              \<or> map_of fs (path_join dest (candidate img k)) = None"
    by blast
  with assms show ?thesis by auto
qed

lemma copy_images_preserves:
  "map_of fs p = Some x \<Longrightarrow> map_of (fst (foldl (copy_image dest) (fs, cp) imgs)) p = Some x"
proof (induction imgs arbitrary: fs cp)
  case Nil
  then show ?case by simp
next
  case (Cons img imgs)
  obtain fs1 cp1 where s: "copy_image dest (fs, cp) img = (fs1, cp1)"
    by (cases "copy_image dest (fs, cp) img")
  from copy_image_preserves [OF Cons.prems, of dest cp img] s have "map_of fs1 p = Some x" by simp
  from Cons.IH [OF this, of cp1] s show ?case by simp
qed

lemma copy_image_twice:
  assumes c: "map_of fs img = Some c"
  shows "\<exists>n. snd (copy_image dest (fs, cp) img) = cp @ [n]
     \<and> copy_image dest (copy_image dest (fs, cp) img) img
         = (fst (copy_image dest (fs, cp) img), cp @ [n, n])"
proof -
  let ?P = "\<lambda>k. path_join dest (candidate img k)"
  from copy_image_spec [OF c, of dest cp] obtain k where
    r: "copy_image dest (fs, cp) img
            = (if map_of fs (?P k) = Some c then fs else (?P k, c) # fs, cp @ [candidate img k])"
    and before: "\<forall>j<k. map_of fs (?P j) \<noteq> None \<and> map_of fs (?P j) \<noteq> Some c"
    and at: "map_of fs (?P k) = Some c \<or> map_of fs (?P k) = None"
    by blast
  let ?fs1 = "if map_of fs (?P k) = Some c then fs else (?P k, c) # fs"
  have at1: "map_of ?fs1 (?P k) = Some c" by simp
  have pres: "map_of ?fs1 p = Some x" if "map_of fs p = Some x" for p x
    using that at by auto
  have c1: "map_of ?fs1 img = Some c" using c by (rule pres)
  from copy_image_spec [OF c1, of dest "cp @ [candidate img k]"] obtain k2 where
    r2: "copy_image dest (?fs1, cp @ [candidate img k]) img
            = (if map_of ?fs1 (?P k2) = Some c then ?fs1 else (?P k2, c) # ?fs1,
               (cp @ [candidate img k]) @ [candidate img k2])"
    and before2: "\<forall>j<k2. map_of ?fs1 (?P j) \<noteq> None \<and> map_of ?fs1 (?P j) \<noteq> Some c"
    and at2: "map_of ?fs1 (?P k2) = Some c \<or> map_of ?fs1 (?P k2) = None"
    by blast
  have "\<not> k < k2" using before2 at1 by blast
  moreover have "\<not> k2 < k"
  proof
    assume "k2 < k"
    with before obtain x where x: "map_of fs (?P k2) = Some x" "x \<noteq> c" by auto
    from pres [OF x(1)] at2 x(2) show False by simp
  qed
  ultimately have "k2 = k" by simp
  with r2 at1 have "copy_image dest (?fs1, cp @ [candidate img k]) img
      = (?fs1, cp @ [candidate img k, candidate img k])"
    by simp
  with r show ?thesis
    by (intro exI [of _ "candidate img k"]) simp
qed

text \<open>
  C2, as stated, fails: the same bytes saved from two differently named source files are
  stored twice, as "a.jpg" and as "b.jpg", and each entry refers to its own copy.
\<close>

theorem copy_images_differently_named_counterexample:
  "copy_images [(''/src/a.jpg'', ''XY''), (''/tmp/b.jpg'', ''XY'')]
     [''/src/a.jpg'', ''/tmp/b.jpg''] ''/p/images''
   = ([(''/p/images/b.jpg'', ''XY''), (''/p/images/a.jpg'', ''XY''),
       (''/src/a.jpg'', ''XY''), (''/tmp/b.jpg'', ''XY'')],
      [''a.jpg'', ''b.jpg''])"
  by code_simp

text \<open>
  C2, amended. A source path that does not exist is skipped. For a source file that
  exists, the stored name is the first of the names base filename, base_1, base_2, ...
  (the number before the extension) under which the store either holds identical bytes
  or holds nothing: all earlier names exist in the store with different bytes; if the
  bytes are identical the file is reused and nothing is copied, otherwise the bytes are
  written under that free name. Saving the same source twice writes once and gives both
  entries the same name. No file that exists before a save is changed or removed by it.
  Two sources of the same base filename and bytes share one stored file.
\<close>

theorem copy_image_first_free_or_identical:
  "(map_of fs img = None \<longrightarrow> copy_image dest (fs, cp) img = (fs, cp))
   \<and> (map_of fs img = Some c \<longrightarrow>
        (\<exists>k. copy_image dest (fs, cp) img
            = (if map_of fs (path_join dest (candidate img k)) = Some c then fs
               else (path_join dest (candidate img k), c) # fs,
               cp @ [candidate img k])
         \<and> (\<forall>j<k. map_of fs (path_join dest (candidate img j)) \<noteq> None
                \<and> map_of fs (path_join dest (candidate img j)) \<noteq> Some c)
         \<and> (map_of fs (path_join dest (candidate img k)) = Some c
              \<or> map_of fs (path_join dest (candidate img k)) = None)))
   \<and> (map_of fs img = Some c \<longrightarrow>
        (\<exists>n. snd (copy_image dest (fs, cp) img) = cp @ [n]
           \<and> copy_image dest (copy_image dest (fs, cp) img) img
               = (fst (copy_image dest (fs, cp) img), cp @ [n, n])))
   \<and> (map_of fs p = Some x \<longrightarrow> map_of (fst (copy_images fs imgs dest)) p = Some x)
   \<and> copy_images [(''/a/x.jpg'', ''XY''), (''/b/x.jpg'', ''XY'')]
         [''/a/x.jpg'', ''/b/x.jpg''] ''/p/images''
       = ([(''/p/images/x.jpg'', ''XY''), (''/a/x.jpg'', ''XY''), (''/b/x.jpg'', ''XY'')],
          [''x.jpg'', ''x.jpg''])"
proof -
  have a: "map_of fs img = None \<longrightarrow> copy_image dest (fs, cp) img = (fs, cp)"
    by (simp add: copy_image_missing)
  have b: "map_of fs img = Some c \<longrightarrow>
        (\<exists>k. copy_image dest (fs, cp) img
            = (if map_of fs (path_join dest (candidate img k)) = Some c then fs
               else (path_join dest (candidate img k), c) # fs,
               cp @ [candidate img k])
         \<and> (\<forall>j<k. map_of fs (path_join dest (candidate img j)) \<noteq> None
                \<and> map_of fs (path_join dest (candidate img j)) \<noteq> Some c)
         \<and> (map_of fs (path_join dest (candidate img k)) = Some c
              \<or> map_of fs (path_join dest (candidate img k)) = None))"
    using copy_image_spec [of fs img c dest cp] by blast
  have t: "map_of fs img = Some c \<longrightarrow>
        (\<exists>n. snd (copy_image dest (fs, cp) img) = cp @ [n]
           \<and> copy_image dest (copy_image dest (fs, cp) img) img
               = (fst (copy_image dest (fs, cp) img), cp @ [n, n]))"
    using copy_image_twice [of fs img c dest cp] by blast
  have p: "map_of fs p = Some x \<longrightarrow> map_of (fst (copy_images fs imgs dest)) p = Some x"
    by (simp add: copy_images_def copy_images_preserves)
  have e: "copy_images [(''/a/x.jpg'', ''XY''), (''/b/x.jpg'', ''XY'')]
         [''/a/x.jpg'', ''/b/x.jpg''] ''/p/images''
       = ([(''/p/images/x.jpg'', ''XY''), (''/a/x.jpg'', ''XY''), (''/b/x.jpg'', ''XY'')],
          [''x.jpg'', ''x.jpg''])"
    by code_simp
  from a b t p e show ?thesis by (intro conjI)
qed

theorem copy_image_first_free_or_identical_witness:
  "map_of [(''/src/a.jpg'', ''XY''), (''/p/images/a.jpg'', ''Z'')] ''/src/a.jpg'' = Some ''XY''
   \<and> (\<exists>n. snd (copy_image ''/p/images''
                  ([(''/src/a.jpg'', ''XY''), (''/p/images/a.jpg'', ''Z'')], []) ''/src/a.jpg'') = [] @ [n]
          \<and> copy_image ''/p/images''
               (copy_image ''/p/images''
                  ([(''/src/a.jpg'', ''XY''), (''/p/images/a.jpg'', ''Z'')], []) ''/src/a.jpg'')
               ''/src/a.jpg''
             = (fst (copy_image ''/p/images''
                  ([(''/src/a.jpg'', ''XY''), (''/p/images/a.jpg'', ''Z'')], []) ''/src/a.jpg''),
                [] @ [n, n]))
   \<and> copy_image ''/p/images'' ([(''/src/a.jpg'', ''XY''), (''/p/images/a.jpg'', ''Z'')], [])
        ''/src/a.jpg''
       = ([(''/p/images/a_1.jpg'', ''XY''), (''/src/a.jpg'', ''XY''), (''/p/images/a.jpg'', ''Z'')],
          [''a_1.jpg''])"
proof -
  have h: "map_of [(''/src/a.jpg'', ''XY''), (''/p/images/a.jpg'', ''Z'')] ''/src/a.jpg'' = Some ''XY''"
    by simp
  note t = copy_image_first_free_or_identical
    [of "[(''/src/a.jpg'', ''XY''), (''/p/images/a.jpg'', ''Z'')]" "''/src/a.jpg''"
        "''/p/images''" "[]" "''XY''"]
  note twice = t [THEN conjunct2, THEN conjunct2, THEN conjunct1, THEN mp, OF h]
  have v: "copy_image ''/p/images'' ([(''/src/a.jpg'', ''XY''), (''/p/images/a.jpg'', ''Z'')], [])
        ''/src/a.jpg''
       = ([(''/p/images/a_1.jpg'', ''XY''), (''/src/a.jpg'', ''XY''), (''/p/images/a.jpg'', ''Z'')],
          [''a_1.jpg''])"
    by code_simp
  from h twice v show ?thesis by (intro conjI)
qed

end
